theory Spec2Isabelle
  imports Main
begin

section \<open>The reconciliation controller of ktail (controller.go)\<close>

text \<open>
  The controller receives pod notifications from an informer and keeps one log tailer
  per container in the map \<open>tailers\<close>. The embedding below follows controller.go
  function by function. Everything the Go code does beyond computing a value is made
  explicit in a \<open>world\<close> record: the fields of the \<open>Controller\<close> struct that
  the code reads or writes, the cells of the variables whose address the code keeps, the
  goroutines it has spawned, and a chronological trace of the calls it makes.
\<close>

subsection \<open>Data\<close>

text \<open>\<open>v1.Container\<close> and \<open>v1.Pod\<close>, restricted to the fields controller.go reads:
  \<open>container.Name\<close>, \<open>pod.Namespace\<close>, \<open>pod.Name\<close>, \<open>pod.Labels\<close> (a Go map, kept as
  an association list and read through \<open>map_of\<close>) and \<open>pod.Spec.Containers\<close>.\<close>

record v1_Container =
  container_Name :: string

record v1_Pod =
  pod_Namespace :: string
  pod_Name :: string
  pod_Labels :: "(string \<times> string) list"
  pod_Spec_Containers :: "v1_Container list"

text \<open>The payload of a notification is an \<open>interface{}\<close>; the handlers test it with
  the type assertion \<open>obj.(*v1.Pod)\<close>. The second constructor stands for every other
  dynamic type and carries its name.\<close>

datatype obj = Pod v1_Pod | NotAPod string

type_synonym error = string

type_synonym addr = nat

text \<open>Modelled from the spec: \<open>ContainerTailer\<close> and \<open>NewContainerTailer\<close> are not part
  of controller.go. The Worker is opaque: a handle with \<open>Run\<close> and \<open>Stop\<close>, constructed
  from the client, the pod, the container pointer and the event callback. The handle
  records the identity of the allocated object and the two arguments that bind it.\<close>

record ContainerTailer =
  tailer_id :: nat
  tailer_pod :: v1_Pod
  tailer_container :: addr

text \<open>The calls the controller makes, in the order it makes them. A hook that receives a
  \<open>*v1.Container\<close> is recorded with the value the pointer refers to at the moment of the
  call.\<close>

datatype event =
    FilterFunc v1_Pod v1_Container
  | EnterFunc v1_Pod v1_Container
  | ExitFunc v1_Pod v1_Container
  | ErrorFunc v1_Pod v1_Container error
  | Lock
  | Unlock
  | TailersLookup string
  | TailersStore string ContainerTailer
  | TailersDelete string
  | NewContainerTailer ContainerTailer v1_Container
  | Go ContainerTailer
  | TailerStop ContainerTailer

text \<open>The \<open>Controller\<close> struct (\<open>tailers\<close>, \<open>labelSelector\<close>, \<open>filterFunc\<close>; the
  selector is the external \<open>labels.Selector\<close>, taken as a predicate on the label map)
  together with the runtime state around it: \<open>cells\<close> holds the range variable of the
  registration loop of \<open>onAdd\<close>, whose address \<open>addContainer\<close> hands to the tailer and
  to the goroutine; \<open>goroutines\<close> lists the spawned closures that have not returned,
  each with the variables it captured.\<close>

record world =
  tailers :: "string \<rightharpoonup> ContainerTailer"
  labelSelector :: "(string \<rightharpoonup> string) \<Rightarrow> bool"
  filterFunc :: "v1_Pod \<Rightarrow> v1_Container \<Rightarrow> bool"
  cells :: "addr \<Rightarrow> v1_Container"
  nextAddr :: addr
  nextTailer :: nat
  goroutines :: "(ContainerTailer \<times> v1_Pod \<times> addr) list"
  trace :: "event list"

definition emit :: "event \<Rightarrow> world \<Rightarrow> world" where
  "emit e w = w\<lparr>trace := trace w @ [e]\<rparr>"

text \<open>The events a call appended to the trace.\<close>

definition new_events :: "world \<Rightarrow> world \<Rightarrow> event list" where
  "new_events w w' = drop (length (trace w)) (trace w')"

subsection \<open>The functions of controller.go\<close>

definition NewController ::
  "((string \<rightharpoonup> string) \<Rightarrow> bool) \<Rightarrow> (v1_Pod \<Rightarrow> v1_Container \<Rightarrow> bool) \<Rightarrow> world" where
  "NewController sel flt =
     \<lparr>tailers = Map.empty, labelSelector = sel, filterFunc = flt,
      cells = (\<lambda>_. \<lparr>container_Name = []\<rparr>), nextAddr = 0, nextTailer = 0,
      goroutines = [], trace = []\<rparr>"

text \<open>\<open>fmt.Sprintf("%s/%s/%s", pod.Namespace, pod.Name, container.Name)\<close>\<close>

definition buildKey :: "v1_Pod \<Rightarrow> v1_Container \<Rightarrow> string" where
  "buildKey pod container =
     pod_Namespace pod @ ''/'' @ pod_Name pod @ ''/'' @ container_Name container"

text \<open>\<open>addContainer\<close> receives the container as a pointer and keeps it: it is passed to
  \<open>NewContainerTailer\<close> and captured by the goroutine. The enter hook runs first; the
  deferred \<open>Unlock\<close> runs when the function returns.\<close>

definition addContainer :: "world \<Rightarrow> v1_Pod \<Rightarrow> addr \<Rightarrow> world" where
  "addContainer w pod container =
     (let w1 = emit (EnterFunc pod (cells w container)) w;
          w2 = emit Lock w1;
          key = buildKey pod (cells w2 container);
          w3 = emit (TailersLookup key) w2;
          w4 = (case tailers w3 key of
                  Some _ \<Rightarrow> w3
                | None \<Rightarrow>
                    (let tailer = \<lparr>tailer_id = nextTailer w3, tailer_pod = pod,
                                   tailer_container = container\<rparr>;
                         w5 = emit (NewContainerTailer tailer (cells w3 container))
                                (w3\<lparr>nextTailer := Suc (nextTailer w3)\<rparr>);
                         w6 = emit (Go tailer)
                                (w5\<lparr>goroutines := goroutines w5 @ [(tailer, pod, container)]\<rparr>)
                     in emit (TailersStore key tailer)
                          (w6\<lparr>tailers := (tailers w6)(key \<mapsto> tailer)\<rparr>)))
      in emit Unlock w4)"

text \<open>The closure \<open>go func() { if err := tailer.Run(); err != nil { ctl.errorFunc(pod,
  container, err) } }()\<close> of \<open>addContainer\<close>, run to its end: \<open>res\<close> is what
  \<open>tailer.Run()\<close> returned. The closure reads its captured pointer when it calls the
  hook. A goroutine that has returned is gone.\<close>

definition addContainer_go :: "world \<Rightarrow> nat \<Rightarrow> error option \<Rightarrow> world" where
  "addContainer_go w tid res =
     (case find (\<lambda>g. tailer_id (fst g) = tid) (goroutines w) of
        None \<Rightarrow> w
      | Some (tailer, pod, container) \<Rightarrow>
          (let w1 = w\<lparr>goroutines := filter (\<lambda>g. tailer_id (fst g) \<noteq> tid) (goroutines w)\<rparr>
           in case res of
                None \<Rightarrow> w1
              | Some err \<Rightarrow> emit (ErrorFunc pod (cells w1 container) err) w1))"

text \<open>\<open>deleteContainer\<close> only reads its container argument during the call, so the
  model passes the value. \<open>defer ctl.Unlock()\<close> runs after the body, that is after the
  exit hook.\<close>

definition deleteContainer :: "world \<Rightarrow> v1_Pod \<Rightarrow> v1_Container \<Rightarrow> world" where
  "deleteContainer w pod container =
     (let w1 = emit Lock w;
          key = buildKey pod container;
          w2 = emit (TailersLookup key) w1;
          w3 = (case tailers w2 key of
                  None \<Rightarrow> w2
                | Some tailer \<Rightarrow>
                    (let w4 = emit (TailersDelete key) (w2\<lparr>tailers := (tailers w2)(key := None)\<rparr>);
                         w5 = emit (TailerStop tailer) w4
                     in emit (ExitFunc pod container) w5))
      in emit Unlock w3)"

text \<open>The first loop of \<open>onAdd\<close>: \<open>any\<close> and the \<open>break\<close> at the first container the
  filter accepts.\<close>

fun onAdd_any :: "world \<Rightarrow> v1_Pod \<Rightarrow> v1_Container list \<Rightarrow> bool \<times> world" where
  "onAdd_any w pod [] = (False, w)"
| "onAdd_any w pod (container # rest) =
     (let w1 = emit (FilterFunc pod container) w
      in if filterFunc w1 pod container then (True, w1) else onAdd_any w1 pod rest)"

text \<open>The second loop of \<open>onAdd\<close>. The range variable \<open>container\<close> is one variable for
  the whole loop (Go before 1.22, the language of this code base): every iteration
  assigns the next element to the same cell and passes the same address
  \<open>&container\<close>.\<close>

fun onAdd_range :: "world \<Rightarrow> v1_Pod \<Rightarrow> addr \<Rightarrow> v1_Container list \<Rightarrow> world" where
  "onAdd_range w pod a [] = w"
| "onAdd_range w pod a (container # rest) =
     onAdd_range (addContainer (w\<lparr>cells := (cells w)(a := container)\<rparr>) pod a) pod a rest"

definition onAdd :: "world \<Rightarrow> obj \<Rightarrow> world" where
  "onAdd w ob =
     (case ob of
        NotAPod _ \<Rightarrow> w
      | Pod pod \<Rightarrow>
          if \<not> labelSelector w (map_of (pod_Labels pod)) then w
          else (case onAdd_any w pod (pod_Spec_Containers pod) of
                  (any, w1) \<Rightarrow>
                    if any
                    then onAdd_range (w1\<lparr>nextAddr := Suc (nextAddr w1)\<rparr>) pod (nextAddr w1)
                           (pod_Spec_Containers pod)
                    else w1))"

fun onDelete_range :: "world \<Rightarrow> v1_Pod \<Rightarrow> v1_Container list \<Rightarrow> world" where
  "onDelete_range w pod [] = w"
| "onDelete_range w pod (container # rest) =
     onDelete_range (deleteContainer w pod container) pod rest"

definition onDelete :: "world \<Rightarrow> obj \<Rightarrow> world" where
  "onDelete w ob =
     (case ob of
        NotAPod _ \<Rightarrow> w
      | Pod pod \<Rightarrow> onDelete_range w pod (pod_Spec_Containers pod))"

text \<open>What \<open>Run\<close> wires up: the informer calls \<open>onAdd\<close>, the empty update handler or
  \<open>onDelete\<close>, one notification at a time; between two notifications a tailer's \<open>Run\<close>
  may return on its goroutine.\<close>

datatype step =
    AddFunc obj
  | UpdateFunc obj obj
  | DeleteFunc obj
  | RunReturns nat "error option"

fun handle :: "world \<Rightarrow> step \<Rightarrow> world" where
  "handle w (AddFunc ob) = onAdd w ob"
| "handle w (UpdateFunc old new) = w"
| "handle w (DeleteFunc ob) = onDelete w ob"
| "handle w (RunReturns tid res) = addContainer_go w tid res"

definition run :: "world \<Rightarrow> step list \<Rightarrow> world" where
  "run w steps = foldl handle w steps"

subsection \<open>Reading the trace\<close>

text \<open>The owner's callbacks: the filter predicate and the enter, exit and error hooks.\<close>

fun is_hook :: "event \<Rightarrow> bool" where
  "is_hook (FilterFunc _ _) = True"
| "is_hook (EnterFunc _ _) = True"
| "is_hook (ExitFunc _ _) = True"
| "is_hook (ErrorFunc _ _ _) = True"
| "is_hook _ = False"

fun is_filter :: "event \<Rightarrow> bool" where
  "is_filter (FilterFunc _ _) = True"
| "is_filter _ = False"

fun is_stop :: "event \<Rightarrow> bool" where
  "is_stop (TailerStop _) = True"
| "is_stop _ = False"

fun is_new :: "event \<Rightarrow> bool" where
  "is_new (NewContainerTailer _ _) = True"
| "is_new _ = False"

text \<open>No hook is called between a \<open>Lock\<close> and the next \<open>Unlock\<close>; the flag says whether
  the mutex is held at the start of the list.\<close>

fun hooks_outside_lock :: "bool \<Rightarrow> event list \<Rightarrow> bool" where
  "hooks_outside_lock held [] = True"
| "hooks_outside_lock held (Lock # es) = hooks_outside_lock True es"
| "hooks_outside_lock held (Unlock # es) = hooks_outside_lock False es"
| "hooks_outside_lock held (e # es) = (\<not> (is_hook e \<and> held) \<and> hooks_outside_lock held es)"

text \<open>The first position of an event in a list of events (its length when absent).\<close>

fun position :: "event \<Rightarrow> event list \<Rightarrow> nat" where
  "position e [] = 0"
| "position e (x # xs) = (if x = e then 0 else Suc (position e xs))"

text \<open>The tailers constructed so far, each under the key of the pod and container it was
  constructed for; the tailers whose \<open>Stop\<close> was called; and the live ones: constructed
  and not stopped.\<close>

fun constructed :: "event list \<Rightarrow> (string \<times> ContainerTailer) list" where
  "constructed [] = []"
| "constructed (NewContainerTailer t c # es) = (buildKey (tailer_pod t) c, t) # constructed es"
| "constructed (_ # es) = constructed es"

fun stopped :: "event list \<Rightarrow> nat list" where
  "stopped [] = []"
| "stopped (TailerStop t # es) = tailer_id t # stopped es"
| "stopped (_ # es) = stopped es"

definition live_tailers :: "event list \<Rightarrow> (string \<times> ContainerTailer) list" where
  "live_tailers es = filter (\<lambda>kt. tailer_id (snd kt) \<notin> set (stopped es)) (constructed es)"

text \<open>The registry and the live tailers agree: no key has two live tailers, the registry
  maps each key to its live tailer, and tailer identities are fresh (never reused, all
  below the allocation counter).\<close>

definition registry_inv :: "world \<Rightarrow> bool" where
  "registry_inv w \<longleftrightarrow>
     distinct (map fst (live_tailers (trace w)))
     \<and> map_of (live_tailers (trace w)) = tailers w
     \<and> distinct (map (\<lambda>kt. tailer_id (snd kt)) (constructed (trace w)))
     \<and> list_all (\<lambda>kt. tailer_id (snd kt) < nextTailer w) (constructed (trace w))
     \<and> list_all (\<lambda>i. i < nextTailer w) (stopped (trace w))"

subsection \<open>The scenario of the specification\<close>

text \<open>Pod \<open>P1\<close> of namespace \<open>ns\<close> with label \<open>app=x\<close> and containers \<open>c1\<close>, \<open>c2\<close>;
  pod \<open>P2\<close> with label \<open>app=y\<close>; a third pod \<open>P3\<close> with label \<open>app=x\<close> and container \<open>c1\<close>; a selector for \<open>app=x\<close>; a filter that accepts \<open>c1\<close>
  only, and one that accepts nothing.\<close>

definition c1 :: v1_Container where
  "c1 = \<lparr>container_Name = ''c1''\<rparr>"

definition c2 :: v1_Container where
  "c2 = \<lparr>container_Name = ''c2''\<rparr>"

definition P1 :: v1_Pod where
  "P1 = \<lparr>pod_Namespace = ''ns'', pod_Name = ''P1'', pod_Labels = [(''app'', ''x'')],
         pod_Spec_Containers = [c1, c2]\<rparr>"

definition P2 :: v1_Pod where
  "P2 = \<lparr>pod_Namespace = ''ns'', pod_Name = ''P2'', pod_Labels = [(''app'', ''y'')],
         pod_Spec_Containers = [c1]\<rparr>"

definition P3 :: v1_Pod where
  "P3 = \<lparr>pod_Namespace = ''ns'', pod_Name = ''P3'', pod_Labels = [(''app'', ''x'')],
         pod_Spec_Containers = [c1]\<rparr>"

definition app_x :: "(string \<rightharpoonup> string) \<Rightarrow> bool" where
  "app_x ls = (ls ''app'' = Some ''x'')"

definition only_c1 :: "v1_Pod \<Rightarrow> v1_Container \<Rightarrow> bool" where
  "only_c1 pod container = (container_Name container = ''c1'')"

definition nothing :: "v1_Pod \<Rightarrow> v1_Container \<Rightarrow> bool" where
  "nothing pod container = False"

text \<open>The tailers that the first add of \<open>P1\<close> constructs: both are handed the address
  of the one range variable, cell 0.\<close>

definition t1 :: ContainerTailer where
  "t1 = \<lparr>tailer_id = 0, tailer_pod = P1, tailer_container = 0\<rparr>"

definition t2 :: ContainerTailer where
  "t2 = \<lparr>tailer_id = 1, tailer_pod = P1, tailer_container = 0\<rparr>"

section \<open>Properties\<close>

subsection \<open>What each function does to the world\<close>

lemma trace_emit [simp]: "trace (emit e w) = trace w @ [e]"
  and tailers_emit [simp]: "tailers (emit e w) = tailers w"
  and cells_emit [simp]: "cells (emit e w) = cells w"
  and nextTailer_emit [simp]: "nextTailer (emit e w) = nextTailer w"
  and nextAddr_emit [simp]: "nextAddr (emit e w) = nextAddr w"
  and goroutines_emit [simp]: "goroutines (emit e w) = goroutines w"
  and filterFunc_emit [simp]: "filterFunc (emit e w) = filterFunc w"
  and labelSelector_emit [simp]: "labelSelector (emit e w) = labelSelector w"
  by (simp_all add: emit_def)

lemma new_events_append [simp]: "trace w' = trace w @ es \<Longrightarrow> new_events w w' = es"
  by (simp add: new_events_def)

lemma addContainer_present:
  assumes "tailers w (buildKey pod (cells w a)) = Some t"
  shows "addContainer w pod a =
           w\<lparr>trace := trace w @ [EnterFunc pod (cells w a), Lock,
                                 TailersLookup (buildKey pod (cells w a)), Unlock]\<rparr>"
  using assms by (simp add: addContainer_def Let_def emit_def)

lemma addContainer_absent:
  assumes "tailers w (buildKey pod (cells w a)) = None"
  shows "addContainer w pod a =
           w\<lparr>tailers := (tailers w)(buildKey pod (cells w a) \<mapsto>
                          \<lparr>tailer_id = nextTailer w, tailer_pod = pod, tailer_container = a\<rparr>),
             nextTailer := Suc (nextTailer w),
             goroutines := goroutines w @
                [(\<lparr>tailer_id = nextTailer w, tailer_pod = pod, tailer_container = a\<rparr>, pod, a)],
             trace := trace w @
                [EnterFunc pod (cells w a), Lock, TailersLookup (buildKey pod (cells w a)),
                 NewContainerTailer \<lparr>tailer_id = nextTailer w, tailer_pod = pod,
                                     tailer_container = a\<rparr> (cells w a),
                 Go \<lparr>tailer_id = nextTailer w, tailer_pod = pod, tailer_container = a\<rparr>,
                 TailersStore (buildKey pod (cells w a))
                   \<lparr>tailer_id = nextTailer w, tailer_pod = pod, tailer_container = a\<rparr>,
                 Unlock]\<rparr>"
  using assms by (simp add: addContainer_def Let_def emit_def)

lemma deleteContainer_present:
  assumes "tailers w (buildKey pod c) = Some t"
  shows "deleteContainer w pod c =
           w\<lparr>tailers := (tailers w)(buildKey pod c := None),
             trace := trace w @ [Lock, TailersLookup (buildKey pod c),
                                 TailersDelete (buildKey pod c), TailerStop t,
                                 ExitFunc pod c, Unlock]\<rparr>"
  using assms by (simp add: deleteContainer_def Let_def emit_def)

lemma deleteContainer_absent:
  assumes "tailers w (buildKey pod c) = None"
  shows "deleteContainer w pod c =
           w\<lparr>trace := trace w @ [Lock, TailersLookup (buildKey pod c), Unlock]\<rparr>"
  using assms by (simp add: deleteContainer_def Let_def emit_def)

subsection \<open>The scenario, evaluated\<close>

lemma P1_fields [simp]:
  "pod_Spec_Containers P1 = [c1, c2]" "map_of (pod_Labels P1) ''app'' = Some ''x''"
  "buildKey P1 c1 = ''ns/P1/c1''" "buildKey P1 c2 = ''ns/P1/c2''"
  "only_c1 P1 c1" "\<not> only_c1 P1 c2" "c1 \<noteq> c2"
  by (simp_all add: P1_def c1_def c2_def buildKey_def only_c1_def)

lemma added_P1:
  "onAdd (NewController app_x only_c1) (Pod P1) =
    \<lparr>tailers = [''ns/P1/c1'' \<mapsto> t1, ''ns/P1/c2'' \<mapsto> t2], labelSelector = app_x,
     filterFunc = only_c1, cells = (\<lambda>_. \<lparr>container_Name = []\<rparr>)(0 := c2), nextAddr = 1,
     nextTailer = 2, goroutines = [(t1, P1, 0), (t2, P1, 0)],
     trace = [FilterFunc P1 c1,
     EnterFunc P1 c1, Lock, TailersLookup ''ns/P1/c1'', NewContainerTailer t1 c1, Go t1,
     TailersStore ''ns/P1/c1'' t1, Unlock,
     EnterFunc P1 c2, Lock, TailersLookup ''ns/P1/c2'', NewContainerTailer t2 c2, Go t2,
     TailersStore ''ns/P1/c2'' t2, Unlock]\<rparr>"
  by (simp add: onAdd_def NewController_def app_x_def addContainer_absent emit_def
      t1_def t2_def)

lemma added_P1_c1: "tailers (onAdd (NewController app_x only_c1) (Pod P1)) (buildKey P1 c1) = Some t1"
  by (simp add: added_P1)

lemma added_P1_cell: "cells (onAdd (NewController app_x only_c1) (Pod P1)) 0 = c2"
  by (simp add: added_P1)

lemma added_P1_c2: "tailers (onAdd (NewController app_x only_c1) (Pod P1)) (buildKey P1 c2) = Some t2"
  by (simp add: added_P1)

lemma run_added_P1:
  "run (NewController app_x only_c1) [AddFunc (Pod P1)] = onAdd (NewController app_x only_c1) (Pod P1)"
  by (simp add: run_def)

subsection \<open>The identity key\<close>

lemma split_at_first:
  "x \<notin> set a \<Longrightarrow> x \<notin> set a' \<Longrightarrow> a @ x # b = a' @ x # b' \<Longrightarrow> a = a' \<and> b = b'"
proof (induction a arbitrary: a')
  case Nil
  then show ?case by (cases a') auto
next
  case (Cons y ys)
  then show ?case by (cases a') auto
qed

lemma buildKey_split:
  assumes "CHR ''/'' \<notin> set a" "CHR ''/'' \<notin> set a'"
    and "a @ ''/'' @ b = a' @ ''/'' @ b'"
  shows "a = a' \<and> b = b'"
  using assms split_at_first [of "CHR ''/''" a a' b b'] by simp

text \<open>C4 (as stated): \<open>buildKey\<close> is injective on (namespace, pod name, container name).
  It is not: a slash inside a component moves the boundary. Namespace \<open>a/b\<close>, pod
  \<open>c\<close>, container \<open>d\<close> and namespace \<open>a\<close>, pod \<open>b/c\<close>, container \<open>d\<close> are different
  triples with the same key \<open>a/b/c/d\<close>.\<close>

theorem buildKey_not_injective:
  "buildKey \<lparr>pod_Namespace = ''a/b'', pod_Name = ''c'', pod_Labels = [], pod_Spec_Containers = []\<rparr>
       \<lparr>container_Name = ''d''\<rparr>
     = buildKey \<lparr>pod_Namespace = ''a'', pod_Name = ''b/c'', pod_Labels = [], pod_Spec_Containers = []\<rparr>
       \<lparr>container_Name = ''d''\<rparr>
   \<and> (''a/b'', ''c'', ''d'') \<noteq> (''a'', ''b/c'', ''d'')"
  by (simp add: buildKey_def)

text \<open>C4 (amended): on pods whose namespace and name contain no slash, as Kubernetes
  names never do, equal keys come from equal (namespace, pod name, container name).\<close>

theorem buildKey_injective:
  assumes "CHR ''/'' \<notin> set (pod_Namespace p)" "CHR ''/'' \<notin> set (pod_Name p)"
    and "CHR ''/'' \<notin> set (pod_Namespace q)" "CHR ''/'' \<notin> set (pod_Name q)"
    and "buildKey p c = buildKey q d"
  shows "pod_Namespace p = pod_Namespace q \<and> pod_Name p = pod_Name q
         \<and> container_Name c = container_Name d"
proof -
  from assms(5)
  have eq: "pod_Namespace p @ ''/'' @ (pod_Name p @ ''/'' @ container_Name c)
            = pod_Namespace q @ ''/'' @ (pod_Name q @ ''/'' @ container_Name d)"
    by (simp add: buildKey_def)
  from buildKey_split [OF assms(1) assms(3) eq]
  have ns: "pod_Namespace p = pod_Namespace q"
    and rest: "pod_Name p @ ''/'' @ container_Name c = pod_Name q @ ''/'' @ container_Name d"
    by simp_all
  from buildKey_split [OF assms(2) assms(4) rest] ns show ?thesis by simp
qed

theorem buildKey_injective_witness:
  "buildKey \<lparr>pod_Namespace = ''ns'', pod_Name = ''P1'', pod_Labels = [], pod_Spec_Containers = []\<rparr>
       \<lparr>container_Name = ''c1''\<rparr> = ''ns/P1/c1''
   \<and> container_Name \<lparr>container_Name = ''c1''\<rparr> = ''c1''"
  using buildKey_injective
    [of "\<lparr>pod_Namespace = ''ns'', pod_Name = ''P1'', pod_Labels = [], pod_Spec_Containers = []\<rparr>"
        "\<lparr>pod_Namespace = ''ns'', pod_Name = ''P1'', pod_Labels = [], pod_Spec_Containers = []\<rparr>"
        "\<lparr>container_Name = ''c1''\<rparr>" "\<lparr>container_Name = ''c1''\<rparr>"]
  by (simp add: buildKey_def)

subsection \<open>Payloads that are not pods\<close>

text \<open>C9: for a notification whose payload is not a pod, \<open>onAdd\<close> and \<open>onDelete\<close>
  return at once: the whole world is as before, so the registry is unchanged, no tailer
  is constructed or stopped and no hook (filter, enter, exit, error) is called.\<close>

theorem not_a_pod_ignored:
  "onAdd w (NotAPod ty) = w \<and> onDelete w (NotAPod ty) = w"
  by (simp add: onAdd_def onDelete_def)

subsection \<open>Removing a container\<close>

text \<open>C3 (as stated): in \<open>deleteContainer\<close> the lock is released before the exit hook
  is called, and the lock is never held across a hook. On the code the \<open>Unlock\<close> is
  deferred: deleting container \<open>c1\<close> of the registered pod \<open>P1\<close> calls the exit hook
  before the \<open>Unlock\<close>, with the mutex held.\<close>

theorem exit_hook_under_lock:
  "\<not> position Unlock
         (new_events (onAdd (NewController app_x only_c1) (Pod P1))
            (deleteContainer (onAdd (NewController app_x only_c1) (Pod P1)) P1 c1))
       < position (ExitFunc P1 c1)
         (new_events (onAdd (NewController app_x only_c1) (Pod P1))
            (deleteContainer (onAdd (NewController app_x only_c1) (Pod P1)) P1 c1))
   \<and> \<not> hooks_outside_lock False
         (new_events (onAdd (NewController app_x only_c1) (Pod P1))
            (deleteContainer (onAdd (NewController app_x only_c1) (Pod P1)) P1 c1))"
  by (simp add: deleteContainer_present [OF added_P1_c1])

text \<open>C3 (amended): when an entry exists for the key, \<open>deleteContainer\<close> locks, looks
  the key up, removes the entry, stops the tailer, calls the exit hook and only then
  unlocks.\<close>

theorem deleteContainer_order:
  assumes "tailers w (buildKey pod c) = Some t"
  shows "new_events w (deleteContainer w pod c) =
           [Lock, TailersLookup (buildKey pod c), TailersDelete (buildKey pod c),
            TailerStop t, ExitFunc pod c, Unlock]"
  using assms by (simp add: deleteContainer_present)

theorem deleteContainer_order_witness:
  "new_events (onAdd (NewController app_x only_c1) (Pod P1))
       (deleteContainer (onAdd (NewController app_x only_c1) (Pod P1)) P1 c1) =
     [Lock, TailersLookup ''ns/P1/c1'', TailersDelete ''ns/P1/c1'', TailerStop t1,
      ExitFunc P1 c1, Unlock]"
  using deleteContainer_order [OF added_P1_c1] by simp

subsection \<open>Adding a container again\<close>

text \<open>C5: when the key is already registered, \<open>addContainer\<close> calls the enter hook
  first (before the lock and before the lookup), constructs no tailer, spawns no
  goroutine and leaves the registry as it is.\<close>

theorem addContainer_again:
  assumes "tailers w (buildKey pod (cells w a)) = Some t"
  shows "new_events w (addContainer w pod a) =
           [EnterFunc pod (cells w a), Lock, TailersLookup (buildKey pod (cells w a)), Unlock]
         \<and> tailers (addContainer w pod a) = tailers w
         \<and> nextTailer (addContainer w pod a) = nextTailer w
         \<and> goroutines (addContainer w pod a) = goroutines w"
  using assms by (simp add: addContainer_present)

theorem addContainer_again_witness:
  "new_events (onAdd (NewController app_x only_c1) (Pod P1))
      (addContainer (onAdd (NewController app_x only_c1) (Pod P1)) P1 0)
     = [EnterFunc P1 c2, Lock, TailersLookup ''ns/P1/c2'', Unlock]
   \<and> nextTailer (addContainer (onAdd (NewController app_x only_c1) (Pod P1)) P1 0) = 2"
  using addContainer_again [of "onAdd (NewController app_x only_c1) (Pod P1)" P1 0 t2]
  by (simp add: added_P1_cell added_P1_c2) (simp add: added_P1)

text \<open>C6: deleting a registered key stops the registered tailer exactly once, calls the
  exit hook exactly once (and no other hook) and removes the entry; deleting a key with
  no entry changes nothing but the trace of the lock and the lookup: the registry is
  unchanged, no hook is called and nothing is stopped. A second delete of the same key is
  such a no-op.\<close>

theorem deleteContainer_once:
  "(tailers w (buildKey pod c) = Some t \<longrightarrow>
       filter is_stop (new_events w (deleteContainer w pod c)) = [TailerStop t]
     \<and> filter is_hook (new_events w (deleteContainer w pod c)) = [ExitFunc pod c]
     \<and> tailers (deleteContainer w pod c) = (tailers w)(buildKey pod c := None))
   \<and> (tailers w (buildKey pod c) = None \<longrightarrow>
       deleteContainer w pod c
         = w\<lparr>trace := trace w @ [Lock, TailersLookup (buildKey pod c), Unlock]\<rparr>
     \<and> tailers (deleteContainer w pod c) = tailers w
     \<and> filter is_hook (new_events w (deleteContainer w pod c)) = []
     \<and> filter is_stop (new_events w (deleteContainer w pod c)) = [])
   \<and> tailers (deleteContainer (deleteContainer w pod c) pod c) = tailers (deleteContainer w pod c)
   \<and> filter is_hook (new_events (deleteContainer w pod c)
                        (deleteContainer (deleteContainer w pod c) pod c)) = []
   \<and> filter is_stop (new_events (deleteContainer w pod c)
                        (deleteContainer (deleteContainer w pod c) pod c)) = []"
proof -
  have gone: "tailers (deleteContainer w pod c) (buildKey pod c) = None"
    by (cases "tailers w (buildKey pod c)")
       (simp_all add: deleteContainer_present deleteContainer_absent)
  show ?thesis
    by (simp add: deleteContainer_absent [OF gone])
       (auto simp: deleteContainer_present deleteContainer_absent)
qed

theorem deleteContainer_once_witness:
  "filter is_stop (new_events (onAdd (NewController app_x only_c1) (Pod P1))
       (deleteContainer (onAdd (NewController app_x only_c1) (Pod P1)) P1 c1)) = [TailerStop t1]
   \<and> filter is_hook (new_events (onAdd (NewController app_x only_c1) (Pod P1))
       (deleteContainer (onAdd (NewController app_x only_c1) (Pod P1)) P1 c1)) = [ExitFunc P1 c1]
   \<and> tailers (deleteContainer (onAdd (NewController app_x only_c1) (Pod P1)) P1 c1) ''ns/P1/c1'' = None
   \<and> tailers (deleteContainer (NewController app_x only_c1) P1 c1) ''ns/P1/c1'' = None"
proof -
  have absent: "tailers (NewController app_x only_c1) (buildKey P1 c1) = None"
    by (simp add: NewController_def)
  from deleteContainer_once [of "onAdd (NewController app_x only_c1) (Pod P1)" P1 c1 t1]
    added_P1_c1
  have first: "filter is_stop (new_events (onAdd (NewController app_x only_c1) (Pod P1))
       (deleteContainer (onAdd (NewController app_x only_c1) (Pod P1)) P1 c1)) = [TailerStop t1]
   \<and> filter is_hook (new_events (onAdd (NewController app_x only_c1) (Pod P1))
       (deleteContainer (onAdd (NewController app_x only_c1) (Pod P1)) P1 c1)) = [ExitFunc P1 c1]
   \<and> tailers (deleteContainer (onAdd (NewController app_x only_c1) (Pod P1)) P1 c1)
       = (tailers (onAdd (NewController app_x only_c1) (Pod P1)))(buildKey P1 c1 := None)"
    by blast
  from deleteContainer_once [of "NewController app_x only_c1" P1 c1 t1] absent
  have second: "tailers (deleteContainer (NewController app_x only_c1) P1 c1)
       = tailers (NewController app_x only_c1)"
    by blast
  from first second absent show ?thesis by simp
qed

subsection \<open>The two loops of \<open>onAdd\<close>\<close>

lemma onAdd_any_rejects:
  "\<forall>c \<in> set cs. \<not> filterFunc w pod c \<Longrightarrow>
     onAdd_any w pod cs = (False, w\<lparr>trace := trace w @ map (FilterFunc pod) cs\<rparr>)"
proof (induction cs arbitrary: w)
  case Nil
  then show ?case by simp
next
  case (Cons c cs)
  from Cons.prems have "\<forall>x \<in> set cs. \<not> filterFunc (emit (FilterFunc pod c) w) pod x"
    by simp
  from Cons.IH [OF this] Cons.prems show ?case
    by (simp add: Let_def emit_def)
qed

lemma onAdd_any_accepts:
  "\<exists>c \<in> set cs. filterFunc w pod c \<Longrightarrow>
     onAdd_any w pod cs =
       (True, w\<lparr>trace := trace w @ map (FilterFunc pod)
                 (take (Suc (length (takeWhile (\<lambda>c. \<not> filterFunc w pod c) cs))) cs)\<rparr>)"
proof (induction cs arbitrary: w)
  case Nil
  then show ?case by simp
next
  case (Cons c cs)
  show ?case
  proof (cases "filterFunc w pod c")
    case True
    then show ?thesis by (simp add: Let_def emit_def)
  next
    case False
    with Cons.prems have "\<exists>x \<in> set cs. filterFunc (emit (FilterFunc pod c) w) pod x"
      by simp
    from Cons.IH [OF this] False show ?thesis
      by (simp add: Let_def emit_def)
  qed
qed

lemma addContainer_trace:
  "\<exists>es. trace (addContainer w pod a) = trace w @ es
        \<and> filter is_hook es = [EnterFunc pod (cells w a)]"
  by (cases "tailers w (buildKey pod (cells w a))")
     (simp_all add: addContainer_absent addContainer_present)

lemma addContainer_keeps:
  "tailers w k = Some t \<Longrightarrow> tailers (addContainer w pod a) k = Some t"
  by (cases "tailers w (buildKey pod (cells w a))")
     (auto simp: addContainer_absent addContainer_present)

lemma addContainer_registers:
  "\<exists>t. tailers (addContainer w pod a) (buildKey pod (cells w a)) = Some t"
  by (cases "tailers w (buildKey pod (cells w a))")
     (simp_all add: addContainer_absent addContainer_present)

lemma addContainer_frame:
  "k \<noteq> buildKey pod (cells w a) \<Longrightarrow> tailers (addContainer w pod a) k = tailers w k"
  by (cases "tailers w (buildKey pod (cells w a))")
     (simp_all add: addContainer_absent addContainer_present)

lemma addContainer_fields [simp]:
  "filterFunc (addContainer w pod a) = filterFunc w"
  "labelSelector (addContainer w pod a) = labelSelector w"
  "cells (addContainer w pod a) = cells w"
  "nextAddr (addContainer w pod a) = nextAddr w"
  by (cases "tailers w (buildKey pod (cells w a))";
      simp add: addContainer_absent addContainer_present)+

lemma onAdd_range_trace:
  "\<exists>es. trace (onAdd_range w pod a cs) = trace w @ es
        \<and> filter is_hook es = map (EnterFunc pod) cs"
proof (induction cs arbitrary: w)
  case Nil
  then show ?case by simp
next
  case (Cons c cs)
  let ?w = "w\<lparr>cells := (cells w)(a := c)\<rparr>"
  obtain es where es: "trace (addContainer ?w pod a) = trace ?w @ es"
      "filter is_hook es = [EnterFunc pod (cells ?w a)]"
    using addContainer_trace by blast
  obtain es' where es': "trace (onAdd_range (addContainer ?w pod a) pod a cs)
        = trace (addContainer ?w pod a) @ es'" "filter is_hook es' = map (EnterFunc pod) cs"
    using Cons.IH by blast
  from es es' show ?case by simp
qed

lemma onAdd_range_keeps:
  "tailers w k = Some t \<Longrightarrow> tailers (onAdd_range w pod a cs) k = Some t"
  by (induction cs arbitrary: w) (simp_all add: addContainer_keeps)

lemma onAdd_range_registers:
  "c \<in> set cs \<Longrightarrow> \<exists>t. tailers (onAdd_range w pod a cs) (buildKey pod c) = Some t"
proof (induction cs arbitrary: w)
  case Nil
  then show ?case by simp
next
  case (Cons d cs)
  show ?case
  proof (cases "c = d")
    case True
    let ?w = "w\<lparr>cells := (cells w)(a := d)\<rparr>"
    from addContainer_registers [of ?w pod a]
    obtain t where "tailers (addContainer ?w pod a) (buildKey pod d) = Some t" by auto
    from onAdd_range_keeps [OF this] True show ?thesis by simp
  next
    case False
    with Cons.prems have "c \<in> set cs" by simp
    from Cons.IH [OF this] show ?thesis by simp
  qed
qed

lemma onAdd_range_frame:
  "k \<notin> buildKey pod ` set cs \<Longrightarrow> tailers (onAdd_range w pod a cs) k = tailers w k"
  by (induction cs arbitrary: w) (simp_all add: addContainer_frame)

lemma filter_hook_FilterFunc [simp]: "filter is_hook (map (FilterFunc pod) cs) = map (FilterFunc pod) cs"
  by (induction cs) simp_all

lemma onAdd_any_tailers [simp]: "tailers (snd (onAdd_any w pod cs)) = tailers w"
  by (induction cs arbitrary: w) (simp_all add: Let_def)

lemma deleteContainer_tailers:
  "tailers (deleteContainer w pod c) = (tailers w)(buildKey pod c := None)"
  by (cases "tailers w (buildKey pod c)")
     (auto simp: deleteContainer_absent deleteContainer_present)

lemma onDelete_range_frame:
  "k \<notin> buildKey pod ` set cs \<Longrightarrow> tailers (onDelete_range w pod cs) k = tailers w k"
  by (induction cs arbitrary: w) (simp_all add: deleteContainer_tailers)

lemma onDelete_range_creates_nothing:
  "tailers (onDelete_range w pod cs) k = Some t \<Longrightarrow> tailers w k = Some t"
proof (induction cs arbitrary: w)
  case Nil
  then show ?case by simp
next
  case (Cons c cs)
  from Cons.IH [of "deleteContainer w pod c"] Cons.prems
  have "tailers (deleteContainer w pod c) k = Some t" by simp
  then show ?case by (simp add: deleteContainer_tailers split: if_splits)
qed

lemma onAdd_keeps: "tailers w k = Some t \<Longrightarrow> tailers (onAdd w ob) k = Some t"
proof (cases ob)
  case (Pod pod)
  assume k: "tailers w k = Some t"
  obtain any w1 where w1: "onAdd_any w pod (pod_Spec_Containers pod) = (any, w1)"
    by (cases "onAdd_any w pod (pod_Spec_Containers pod)")
  from onAdd_any_tailers [of w pod "pod_Spec_Containers pod"] w1
  have "tailers w1 = tailers w" by simp
  with k have "tailers (w1\<lparr>nextAddr := Suc (nextAddr w1)\<rparr>) k = Some t" by simp
  from onAdd_range_keeps [OF this] k w1 \<open>tailers w1 = tailers w\<close> Pod show ?thesis
    by (simp add: onAdd_def)
next
  case (NotAPod ty)
  assume "tailers w k = Some t"
  with NotAPod show ?thesis by (simp add: onAdd_def)
qed

lemma onAdd_frame:
  assumes "k \<notin> buildKey pod ` set (pod_Spec_Containers pod)"
  shows "tailers (onAdd w (Pod pod)) k = tailers w k"
proof -
  obtain any w1 where w1: "onAdd_any w pod (pod_Spec_Containers pod) = (any, w1)"
    by (cases "onAdd_any w pod (pod_Spec_Containers pod)")
  from onAdd_any_tailers [of w pod "pod_Spec_Containers pod"] w1
  have "tailers w1 = tailers w" by simp
  with onAdd_range_frame [OF assms, of "w1\<lparr>nextAddr := Suc (nextAddr w1)\<rparr>" "nextAddr w1"] w1
  show ?thesis by (simp add: onAdd_def)
qed

subsection \<open>Adding a pod\<close>

text \<open>C7 (as stated): an add for a pod that the selector does not match, or whose
  containers the filter all rejects, calls no hook. For the second kind the filter, itself
  one of the owner's hooks, is called: with the filter that accepts nothing, adding \<open>P1\<close>
  calls it once for each of the two containers.\<close>

theorem filter_is_called_on_rejected_pod:
  "labelSelector (NewController app_x nothing) (map_of (pod_Labels P1))
   \<and> \<not> filterFunc (NewController app_x nothing) P1 c1
   \<and> \<not> filterFunc (NewController app_x nothing) P1 c2
   \<and> filter is_hook (new_events (NewController app_x nothing)
          (onAdd (NewController app_x nothing) (Pod P1))) = [FilterFunc P1 c1, FilterFunc P1 c2]"
  by (simp add: onAdd_def NewController_def app_x_def nothing_def emit_def Let_def new_events_def)

text \<open>C7 (amended): an add for a pod that the selector does not match leaves the world
  as it is (no registry entry, no call at all, not even of the filter). An add for a
  matching pod whose containers the filter all rejects calls the filter once per
  container, in list order, and does nothing else: the registry is unchanged and no
  enter, exit or error hook is called.\<close>

theorem onAdd_ignores:
  "(\<not> labelSelector w (map_of (pod_Labels pod)) \<longrightarrow> onAdd w (Pod pod) = w)
   \<and> (labelSelector w (map_of (pod_Labels pod))
        \<and> (\<forall>c \<in> set (pod_Spec_Containers pod). \<not> filterFunc w pod c) \<longrightarrow>
          onAdd w (Pod pod)
            = w\<lparr>trace := trace w @ map (FilterFunc pod) (pod_Spec_Containers pod)\<rparr>
        \<and> tailers (onAdd w (Pod pod)) = tailers w
        \<and> filter (\<lambda>e. \<not> is_filter e) (new_events w (onAdd w (Pod pod))) = [])"
proof -
  have nf: "filter (\<lambda>e. \<not> is_filter e) (map (FilterFunc pod) cs) = []" for cs
    by (induction cs) simp_all
  show ?thesis
    by (auto simp: onAdd_def onAdd_any_rejects nf)
qed

theorem onAdd_ignores_witness:
  "onAdd (NewController app_x only_c1) (Pod P2) = NewController app_x only_c1
   \<and> trace (onAdd (NewController app_x nothing) (Pod P1)) = [FilterFunc P1 c1, FilterFunc P1 c2]
   \<and> tailers (onAdd (NewController app_x nothing) (Pod P1)) = Map.empty"
proof -
  have no: "\<not> labelSelector (NewController app_x only_c1) (map_of (pod_Labels P2))"
    by (simp add: NewController_def app_x_def P2_def)
  have yes: "labelSelector (NewController app_x nothing) (map_of (pod_Labels P1))"
    by (simp add: NewController_def app_x_def)
  have rej: "\<forall>c \<in> set (pod_Spec_Containers P1). \<not> filterFunc (NewController app_x nothing) P1 c"
    by (simp add: NewController_def nothing_def)
  from onAdd_ignores [of "NewController app_x only_c1" P2] no
  have a: "onAdd (NewController app_x only_c1) (Pod P2) = NewController app_x only_c1"
    by blast
  from onAdd_ignores [of "NewController app_x nothing" P1] yes rej
  have b: "onAdd (NewController app_x nothing) (Pod P1)
            = (NewController app_x nothing)
                \<lparr>trace := trace (NewController app_x nothing)
                          @ map (FilterFunc P1) (pod_Spec_Containers P1)\<rparr>"
    by blast
  show ?thesis by (simp add: a b) (simp add: NewController_def)
qed

text \<open>C2: for a pod that the selector matches and of which the filter accepts some
  container, the hooks \<open>onAdd\<close> calls are: the filter on the containers up to and
  including the first accepted one (the \<open>break\<close>), then the enter hook once for every
  container of the pod in list order, accepted by the filter or not; afterwards every
  container of the pod has a registry entry.\<close>

theorem onAdd_registers_every_container:
  assumes "labelSelector w (map_of (pod_Labels pod))"
    and "\<exists>c \<in> set (pod_Spec_Containers pod). filterFunc w pod c"
  shows "filter is_hook (new_events w (onAdd w (Pod pod))) =
           map (FilterFunc pod)
             (take (Suc (length (takeWhile (\<lambda>c. \<not> filterFunc w pod c) (pod_Spec_Containers pod))))
                (pod_Spec_Containers pod))
           @ map (EnterFunc pod) (pod_Spec_Containers pod)
         \<and> (\<forall>c \<in> set (pod_Spec_Containers pod).
               \<exists>t. tailers (onAdd w (Pod pod)) (buildKey pod c) = Some t)"
proof -
  let ?cs = "pod_Spec_Containers pod"
  let ?F = "map (FilterFunc pod) (take (Suc (length (takeWhile (\<lambda>c. \<not> filterFunc w pod c) ?cs))) ?cs)"
  let ?w1 = "w\<lparr>trace := trace w @ ?F\<rparr>"
  let ?w2 = "?w1\<lparr>nextAddr := Suc (nextAddr ?w1)\<rparr>"
  have on: "onAdd w (Pod pod) = onAdd_range ?w2 pod (nextAddr w) ?cs"
    using assms by (simp add: onAdd_def onAdd_any_accepts)
  obtain es where es: "trace (onAdd_range ?w2 pod (nextAddr w) ?cs) = trace ?w2 @ es"
      "filter is_hook es = map (EnterFunc pod) ?cs"
    using onAdd_range_trace by blast
  from es have "new_events w (onAdd w (Pod pod)) = ?F @ es"
    by (simp add: on)
  with es(2) have hooks: "filter is_hook (new_events w (onAdd w (Pod pod)))
      = ?F @ map (EnterFunc pod) ?cs"
    by simp
  have keys: "\<forall>c \<in> set ?cs. \<exists>t. tailers (onAdd w (Pod pod)) (buildKey pod c) = Some t"
    by (simp add: on onAdd_range_registers)
  from hooks keys show ?thesis by blast
qed

theorem onAdd_registers_every_container_witness:
  "filter is_hook (new_events (NewController app_x only_c1)
       (onAdd (NewController app_x only_c1) (Pod P1)))
     = [FilterFunc P1 c1, EnterFunc P1 c1, EnterFunc P1 c2]
   \<and> (\<exists>t. tailers (onAdd (NewController app_x only_c1) (Pod P1)) ''ns/P1/c2'' = Some t)"
proof -
  have sel: "labelSelector (NewController app_x only_c1) (map_of (pod_Labels P1))"
    by (simp add: NewController_def app_x_def)
  have acc: "\<exists>c \<in> set (pod_Spec_Containers P1). filterFunc (NewController app_x only_c1) P1 c"
    by (simp add: NewController_def)
  have ff: "filterFunc (NewController app_x only_c1) = only_c1"
    by (simp add: NewController_def)
  from onAdd_registers_every_container [OF sel acc] show ?thesis
    by (simp add: ff)
qed

subsection \<open>Other pods' keys\<close>

text \<open>C10: a notification for a pod leaves every key that is not the key of one of
  that pod's containers as it was, under \<open>onAdd\<close> and under \<open>onDelete\<close>; \<open>onAdd\<close>
  removes or rebinds no entry, and \<open>onDelete\<close> creates none.\<close>

theorem notification_frame:
  "(k \<notin> buildKey pod ` set (pod_Spec_Containers pod) \<longrightarrow>
        tailers (onAdd w (Pod pod)) k = tailers w k
      \<and> tailers (onDelete w (Pod pod)) k = tailers w k)
   \<and> (tailers w k = Some t \<longrightarrow> tailers (onAdd w (Pod pod)) k = Some t)
   \<and> (tailers (onDelete w (Pod pod)) k = Some t \<longrightarrow> tailers w k = Some t)"
  using onAdd_frame [of k pod w] onAdd_keeps [of w k t "Pod pod"]
    onDelete_range_frame [of k pod "pod_Spec_Containers pod" w]
    onDelete_range_creates_nothing [of w pod "pod_Spec_Containers pod" k t]
  by (simp add: onDelete_def)

theorem notification_frame_witness:
  "tailers (onAdd (onAdd (NewController app_x only_c1) (Pod P1)) (Pod P3)) ''ns/P1/c1'' = Some t1
   \<and> tailers (onDelete (onAdd (NewController app_x only_c1) (Pod P1)) (Pod P3)) ''ns/P1/c1'' = Some t1
   \<and> tailers (onDelete (NewController app_x only_c1) (Pod P1)) ''ns/P3/c1'' = None"
proof -
  have out: "''ns/P1/c1'' \<notin> buildKey P3 ` set (pod_Spec_Containers P3)"
    by (simp add: P3_def c1_def buildKey_def)
  have out': "''ns/P3/c1'' \<notin> buildKey P1 ` set (pod_Spec_Containers P1)"
    by simp
  have k: "tailers (onAdd (NewController app_x only_c1) (Pod P1)) ''ns/P1/c1'' = Some t1"
    by (simp add: added_P1)
  have e: "tailers (NewController app_x only_c1) ''ns/P3/c1'' = None"
    by (simp add: NewController_def)
  from notification_frame [of "''ns/P1/c1''" P3 "onAdd (NewController app_x only_c1) (Pod P1)" t1]
    out k
  have 1: "tailers (onAdd (onAdd (NewController app_x only_c1) (Pod P1)) (Pod P3)) ''ns/P1/c1'' = Some t1"
    and 2: "tailers (onDelete (onAdd (NewController app_x only_c1) (Pod P1)) (Pod P3)) ''ns/P1/c1'' = Some t1"
    by simp_all
  from notification_frame [of "''ns/P3/c1''" P1 "NewController app_x only_c1" t1] out' e
  have 3: "tailers (onDelete (NewController app_x only_c1) (Pod P1)) ''ns/P3/c1'' = None"
    by simp
  from 1 2 3 show ?thesis by blast
qed

subsection \<open>The registry and the live tailers\<close>

lemma constructed_append [simp]: "constructed (xs @ ys) = constructed xs @ constructed ys"
  by (induction xs rule: constructed.induct) simp_all

lemma stopped_append [simp]: "stopped (xs @ ys) = stopped xs @ stopped ys"
  by (induction xs rule: stopped.induct) simp_all

lemma constructed_FilterFunc [simp]: "constructed (map (FilterFunc pod) cs) = []"
  by (induction cs) simp_all

lemma stopped_FilterFunc [simp]: "stopped (map (FilterFunc pod) cs) = []"
  by (induction cs) simp_all

lemma map_of_drop_key:
  "map_of (filter (\<lambda>kt. fst kt \<noteq> k) xs) = (map_of xs)(k := None)"
  by (induction xs) auto

lemma registry_inv_quiet:
  assumes "registry_inv w" and "trace w' = trace w @ es"
    and "constructed es = []" and "stopped es = []"
    and "tailers w' = tailers w" and "nextTailer w' = nextTailer w"
  shows "registry_inv w'"
  using assms by (simp add: registry_inv_def live_tailers_def)

lemma registry_inv_add:
  assumes inv: "registry_inv w"
  shows "registry_inv (addContainer w pod a)"
proof (cases "tailers w (buildKey pod (cells w a))")
  case (Some t)
  show ?thesis
    by (rule registry_inv_quiet [OF inv, where es = "[EnterFunc pod (cells w a), Lock,
          TailersLookup (buildKey pod (cells w a)), Unlock]"])
       (simp_all add: addContainer_present [OF Some])
next
  case None
  let ?k = "buildKey pod (cells w a)"
  let ?t = "\<lparr>tailer_id = nextTailer w, tailer_pod = pod, tailer_container = a\<rparr>"
  let ?w = "addContainer w pod a"
  have con: "constructed (trace ?w) = constructed (trace w) @ [(?k, ?t)]"
    and sto: "stopped (trace ?w) = stopped (trace w)"
    and tai: "tailers ?w = (tailers w)(?k \<mapsto> ?t)"
    and nxt: "nextTailer ?w = Suc (nextTailer w)"
    by (simp_all add: addContainer_absent [OF None])
  from inv have fresh_s: "nextTailer w \<notin> set (stopped (trace w))"
    by (auto simp: registry_inv_def list_all_iff)
  from inv have fresh_c: "nextTailer w \<notin> (\<lambda>kt. tailer_id (snd kt)) ` set (constructed (trace w))"
    by (auto simp: registry_inv_def list_all_iff)
  from fresh_s have live: "live_tailers (trace ?w) = live_tailers (trace w) @ [(?k, ?t)]"
    by (simp add: live_tailers_def con sto)
  from inv None have "map_of (live_tailers (trace w)) ?k = None"
    by (simp add: registry_inv_def)
  then have nokey: "?k \<notin> fst ` set (live_tailers (trace w))"
    by (simp add: map_of_eq_None_iff)
  have m: "map_of (live_tailers (trace ?w)) = tailers ?w"
  proof
    fix x
    from inv None show "map_of (live_tailers (trace ?w)) x = tailers ?w x"
      by (auto simp: live tai registry_inv_def map_add_def split: option.splits)
  qed
  from inv have "list_all (\<lambda>kt. tailer_id (snd kt) < Suc (nextTailer w)) (constructed (trace w))"
    "list_all (\<lambda>i. i < Suc (nextTailer w)) (stopped (trace w))"
    by (auto simp: registry_inv_def list_all_iff less_Suc_eq)
  with inv nokey fresh_c m show ?thesis
    by (simp add: registry_inv_def live con sto nxt)
qed

lemma registry_inv_delete:
  assumes inv: "registry_inv w"
  shows "registry_inv (deleteContainer w pod c)"
proof (cases "tailers w (buildKey pod c)")
  case None
  show ?thesis
    by (rule registry_inv_quiet [OF inv, where es = "[Lock, TailersLookup (buildKey pod c), Unlock]"])
       (simp_all add: deleteContainer_absent [OF None])
next
  case (Some t)
  let ?k = "buildKey pod c"
  let ?w = "deleteContainer w pod c"
  let ?L = "live_tailers (trace w)"
  have con: "constructed (trace ?w) = constructed (trace w)"
    and sto: "stopped (trace ?w) = stopped (trace w) @ [tailer_id t]"
    and tai: "tailers ?w = (tailers w)(?k := None)"
    and nxt: "nextTailer ?w = nextTailer w"
    by (simp_all add: deleteContainer_present [OF Some])
  from inv Some have "map_of ?L ?k = Some t" by (simp add: registry_inv_def)
  then have mem: "(?k, t) \<in> set ?L" by (rule map_of_SomeD)
  then have memc: "(?k, t) \<in> set (constructed (trace w))" by (simp add: live_tailers_def)
  from inv have dk: "distinct (map fst ?L)"
    and di: "distinct (map (\<lambda>kt. tailer_id (snd kt)) (constructed (trace w)))"
    by (simp_all add: registry_inv_def)
  have same: "(tailer_id (snd kt) \<noteq> tailer_id t) = (fst kt \<noteq> ?k)" if kt: "kt \<in> set ?L" for kt
  proof -
    from kt have ktc: "kt \<in> set (constructed (trace w))" by (simp add: live_tailers_def)
    from di have "inj_on (\<lambda>kt. tailer_id (snd kt)) (set (constructed (trace w)))"
      by (simp add: distinct_map)
    from inj_onD [OF this _ ktc memc]
    have "tailer_id (snd kt) = tailer_id t \<Longrightarrow> kt = (?k, t)" by simp
    moreover
    from dk have "inj_on fst (set ?L)" by (simp add: distinct_map)
    from inj_onD [OF this _ kt mem]
    have "fst kt = ?k \<Longrightarrow> kt = (?k, t)" by simp
    ultimately show ?thesis by auto
  qed
  have live: "live_tailers (trace ?w) = filter (\<lambda>kt. fst kt \<noteq> ?k) ?L"
  proof -
    have "live_tailers (trace ?w) = filter (\<lambda>kt. tailer_id (snd kt) \<noteq> tailer_id t) ?L"
      by (simp add: live_tailers_def con sto) (metis (mono_tags, lifting) filter_cong)
    also have "\<dots> = filter (\<lambda>kt. fst kt \<noteq> ?k) ?L"
      by (rule filter_cong) (simp_all add: same)
    finally show ?thesis .
  qed
  from inv memc have "tailer_id t < nextTailer w"
    by (auto simp: registry_inv_def list_all_iff)
  with inv dk show ?thesis
    by (simp add: registry_inv_def live con sto nxt tai map_of_drop_key distinct_map_filter)
qed

lemma registry_inv_onAdd_range:
  "registry_inv w \<Longrightarrow> registry_inv (onAdd_range w pod a cs)"
proof (induction cs arbitrary: w)
  case Nil
  then show ?case by simp
next
  case (Cons c cs)
  from Cons.prems have "registry_inv (w\<lparr>cells := (cells w)(a := c)\<rparr>)"
    by (simp add: registry_inv_def)
  then show ?case by (simp add: Cons.IH registry_inv_add)
qed

lemma registry_inv_onDelete_range:
  "registry_inv w \<Longrightarrow> registry_inv (onDelete_range w pod cs)"
  by (induction cs arbitrary: w) (simp_all add: registry_inv_delete)

lemma onAdd_any_world:
  "\<exists>cs'. snd (onAdd_any w pod cs) = w\<lparr>trace := trace w @ map (FilterFunc pod) cs'\<rparr>"
proof (cases "\<exists>c \<in> set cs. filterFunc w pod c")
  case True
  from onAdd_any_accepts [OF True] show ?thesis by auto
next
  case False
  then have "\<forall>c \<in> set cs. \<not> filterFunc w pod c" by simp
  from onAdd_any_rejects [OF this] show ?thesis by auto
qed

lemma registry_inv_onAdd:
  assumes "registry_inv w"
  shows "registry_inv (onAdd w ob)"
proof (cases ob)
  case (Pod pod)
  obtain any w1 where r: "onAdd_any w pod (pod_Spec_Containers pod) = (any, w1)"
    by (cases "onAdd_any w pod (pod_Spec_Containers pod)")
  obtain cs' where "snd (onAdd_any w pod (pod_Spec_Containers pod))
      = w\<lparr>trace := trace w @ map (FilterFunc pod) cs'\<rparr>"
    using onAdd_any_world by blast
  with r have w1: "w1 = w\<lparr>trace := trace w @ map (FilterFunc pod) cs'\<rparr>" by simp
  have i1: "registry_inv w1"
    by (rule registry_inv_quiet [OF assms, where es = "map (FilterFunc pod) cs'"])
       (simp_all add: w1)
  then have "registry_inv (w1\<lparr>nextAddr := Suc (nextAddr w1)\<rparr>)"
    by (simp add: registry_inv_def)
  then have "registry_inv (onAdd_range (w1\<lparr>nextAddr := Suc (nextAddr w1)\<rparr>) pod (nextAddr w1)
       (pod_Spec_Containers pod))"
    by (rule registry_inv_onAdd_range)
  with i1 r assms Pod show ?thesis
    by (simp add: onAdd_def)
next
  case (NotAPod ty)
  with assms show ?thesis by (simp add: onAdd_def)
qed

lemma registry_inv_onDelete:
  "registry_inv w \<Longrightarrow> registry_inv (onDelete w ob)"
  by (cases ob) (simp_all add: onDelete_def registry_inv_onDelete_range)

lemma registry_inv_go:
  assumes "registry_inv w"
  shows "registry_inv (addContainer_go w tid res)"
proof (cases "find (\<lambda>g. tailer_id (fst g) = tid) (goroutines w)")
  case None
  with assms show ?thesis by (simp add: addContainer_go_def)
next
  case (Some g)
  obtain t pod a where g: "g = (t, pod, a)" by (cases g)
  show ?thesis
  proof (cases res)
    case None
    with assms Some g show ?thesis
      by (simp add: addContainer_go_def registry_inv_def)
  next
    case (Some err)
    with assms \<open>find _ _ = Some g\<close> g show ?thesis
      by (simp add: addContainer_go_def registry_inv_def emit_def live_tailers_def)
  qed
qed

lemma registry_inv_handle:
  "registry_inv w \<Longrightarrow> registry_inv (handle w s)"
  by (cases s) (simp_all add: registry_inv_onAdd registry_inv_onDelete registry_inv_go)

lemma registry_inv_run:
  "registry_inv w \<Longrightarrow> registry_inv (run w steps)"
  unfolding run_def by (induction steps arbitrary: w) (simp_all add: registry_inv_handle)

lemma registry_inv_NewController: "registry_inv (NewController sel flt)"
  by (simp add: registry_inv_def NewController_def live_tailers_def)

lemma is_new_FilterFunc [simp]: "filter is_new (map (FilterFunc pod) cs) = []"
  by (induction cs) simp_all

text \<open>C1: after every sequence of notifications (and of returning goroutines), handled
  from the fresh controller, no key has two live tailers and the registry holds exactly
  the live tailer of each key; every single \<open>addContainer\<close> and \<open>deleteContainer\<close>
  keeps it so; and \<open>addContainer\<close> constructs and registers a tailer exactly when its
  key has no entry.\<close>

theorem registry_no_duplicates:
  "registry_inv (run (NewController sel flt) steps)
   \<and> distinct (map fst (live_tailers (trace (run (NewController sel flt) steps))))
   \<and> map_of (live_tailers (trace (run (NewController sel flt) steps)))
       = tailers (run (NewController sel flt) steps)
   \<and> (registry_inv w \<longrightarrow>
         registry_inv (addContainer w pod a) \<and> registry_inv (deleteContainer w pod c))
   \<and> filter is_new (new_events w (addContainer w pod a))
       = (case tailers w (buildKey pod (cells w a)) of
            None \<Rightarrow> [NewContainerTailer
                       \<lparr>tailer_id = nextTailer w, tailer_pod = pod, tailer_container = a\<rparr>
                       (cells w a)]
          | Some _ \<Rightarrow> [])
   \<and> tailers (addContainer w pod a)
       = (case tailers w (buildKey pod (cells w a)) of
            None \<Rightarrow> (tailers w)(buildKey pod (cells w a) \<mapsto>
                       \<lparr>tailer_id = nextTailer w, tailer_pod = pod, tailer_container = a\<rparr>)
          | Some _ \<Rightarrow> tailers w)"
proof -
  have r: "registry_inv (run (NewController sel flt) steps)"
    by (rule registry_inv_run [OF registry_inv_NewController])
  have n: "filter is_new (new_events w (addContainer w pod a))
       = (case tailers w (buildKey pod (cells w a)) of
            None \<Rightarrow> [NewContainerTailer
                       \<lparr>tailer_id = nextTailer w, tailer_pod = pod, tailer_container = a\<rparr>
                       (cells w a)]
          | Some _ \<Rightarrow> [])"
    by (cases "tailers w (buildKey pod (cells w a))")
       (simp_all add: addContainer_absent addContainer_present)
  have t: "tailers (addContainer w pod a)
       = (case tailers w (buildKey pod (cells w a)) of
            None \<Rightarrow> (tailers w)(buildKey pod (cells w a) \<mapsto>
                       \<lparr>tailer_id = nextTailer w, tailer_pod = pod, tailer_container = a\<rparr>)
          | Some _ \<Rightarrow> tailers w)"
    by (cases "tailers w (buildKey pod (cells w a))")
       (simp_all add: addContainer_absent addContainer_present)
  from r have "distinct (map fst (live_tailers (trace (run (NewController sel flt) steps))))"
    "map_of (live_tailers (trace (run (NewController sel flt) steps)))
       = tailers (run (NewController sel flt) steps)"
    by (simp_all add: registry_inv_def)
  with r n t show ?thesis
    by (simp add: registry_inv_add registry_inv_delete)
qed

theorem registry_no_duplicates_witness:
  "distinct (map fst (live_tailers (trace
       (run (NewController app_x only_c1) [AddFunc (Pod P1), AddFunc (Pod P1), DeleteFunc (Pod P1)]))))
   \<and> map fst (live_tailers (trace (run (NewController app_x only_c1) [AddFunc (Pod P1)])))
       = [''ns/P1/c1'', ''ns/P1/c2'']
   \<and> registry_inv (addContainer (run (NewController app_x only_c1) [AddFunc (Pod P1)]) P1 0)
   \<and> filter is_new (new_events (run (NewController app_x only_c1) [AddFunc (Pod P1)])
         (addContainer (run (NewController app_x only_c1) [AddFunc (Pod P1)]) P1 0)) = []"
proof -
  note a = registry_no_duplicates [of app_x only_c1
      "[AddFunc (Pod P1), AddFunc (Pod P1), DeleteFunc (Pod P1)]"]
  note b = registry_no_duplicates [of app_x only_c1 "[AddFunc (Pod P1)]"
      "run (NewController app_x only_c1) [AddFunc (Pod P1)]" P1 0 c1]
  have l: "map fst (live_tailers (trace (run (NewController app_x only_c1) [AddFunc (Pod P1)])))
       = [''ns/P1/c1'', ''ns/P1/c2'']"
    by (simp add: run_added_P1 added_P1 live_tailers_def t1_def t2_def)
  have k: "tailers (run (NewController app_x only_c1) [AddFunc (Pod P1)])
       (buildKey P1 (cells (run (NewController app_x only_c1) [AddFunc (Pod P1)]) 0)) = Some t2"
    by (simp add: run_added_P1 added_P1)
  from a have 1: "distinct (map fst (live_tailers (trace
       (run (NewController app_x only_c1) [AddFunc (Pod P1), AddFunc (Pod P1), DeleteFunc (Pod P1)]))))"
    by blast
  from b have 2: "registry_inv (addContainer (run (NewController app_x only_c1) [AddFunc (Pod P1)]) P1 0)"
    by blast
  from b have "filter is_new (new_events (run (NewController app_x only_c1) [AddFunc (Pod P1)])
         (addContainer (run (NewController app_x only_c1) [AddFunc (Pod P1)]) P1 0))
     = (case tailers (run (NewController app_x only_c1) [AddFunc (Pod P1)])
       (buildKey P1 (cells (run (NewController app_x only_c1) [AddFunc (Pod P1)]) 0)) of
            None \<Rightarrow> [NewContainerTailer
                       \<lparr>tailer_id = nextTailer (run (NewController app_x only_c1) [AddFunc (Pod P1)]),
                          tailer_pod = P1, tailer_container = 0\<rparr>
                       (cells (run (NewController app_x only_c1) [AddFunc (Pod P1)]) 0)]
          | Some _ \<Rightarrow> [])"
    by blast
  with k have 3: "filter is_new (new_events (run (NewController app_x only_c1) [AddFunc (Pod P1)])
         (addContainer (run (NewController app_x only_c1) [AddFunc (Pod P1)]) P1 0)) = []"
    by simp
  from 1 l 2 3 show ?thesis by blast
qed

subsection \<open>A tailer that fails\<close>

text \<open>When \<open>Run\<close> returns, the goroutine neither touches the registry nor constructs a
  tailer.\<close>

lemma addContainer_go_keeps_registry:
  "tailers (addContainer_go w tid res) = tailers w
   \<and> nextTailer (addContainer_go w tid res) = nextTailer w
   \<and> filter is_new (new_events w (addContainer_go w tid res)) = []"
  by (cases res)
     (simp_all add: addContainer_go_def new_events_def emit_def Let_def
        split: option.splits prod.splits)

text \<open>C8: the error hook is to be called with the pod and container of the failed
  tailer. After \<open>P1\<close> was added, tailer 0 was constructed for container \<open>c1\<close>; when its
  \<open>Run\<close> returns an error, the goroutine calls the error hook once, but with the
  container its captured pointer now refers to: the range variable of \<open>onAdd\<close>, which
  holds the pod's last container \<open>c2\<close>.\<close>

theorem error_hook_gets_last_container:
  "constructed (trace (onAdd (NewController app_x only_c1) (Pod P1)))
     = [(''ns/P1/c1'', t1), (''ns/P1/c2'', t2)]
   \<and> tailer_id t1 = 0
   \<and> new_events (onAdd (NewController app_x only_c1) (Pod P1))
        (addContainer_go (onAdd (NewController app_x only_c1) (Pod P1)) 0 (Some ''EOF''))
      = [ErrorFunc P1 c2 ''EOF'']
   \<and> c1 \<noteq> c2"
  by (simp add: added_P1 addContainer_go_def emit_def new_events_def t1_def t2_def)

end
